theory Spec2Isabelle
  imports Main "HOL-Library.Sublist" "HOL-Library.Multiset" "HOL-Library.Monad_Syntax"
    "HOL-Library.Word"
begin

section \<open>Data model\<close>

text \<open>
  The notes manager of \<^verbatim>\<open>src/app/page.tsx\<close>: a React component \<^verbatim>\<open>NotesApp\<close> whose state is
  a list of notes, an edit buffer and two filter inputs, persisted under the key
  \<^verbatim>\<open>'notes'\<close> of the browser's \<^verbatim>\<open>localStorage\<close>.

  A JavaScript string is a sequence of UTF-16 code units. The component is modelled over
  the code units U+0000 to U+00FF, which are the values of type \<^typ>\<open>char\<close>: on these the
  string operations of the host are defined below, character by character. The note
  record and the filtered view are defined for every type of code units, the filtered
  view with the host's \<^verbatim>\<open>toLowerCase\<close> as a parameter, so that the view can also be stated
  on texts beyond U+00FF (code units of type \<^typ>\<open>16 word\<close>). Timestamps are the integers
  \<^verbatim>\<open>Date.now()\<close> returns (milliseconds), far below the range where a JavaScript number
  stops being exact, so they are \<^typ>\<open>int\<close>.
\<close>

text \<open>
  \<^verbatim>\<open>interface Note\<close>, over code units of type \<open>'c\<close>. The field \<^verbatim>\<open>id\<close> is \<open>id_note\<close> here:
  \<open>id\<close> is HOL's identity function.
\<close>

record 'c Note_of =
  id_note :: "'c list"
  title :: "'c list"
  content :: "'c list"
  tags :: "'c list list"
  createdAt :: int
  updatedAt :: int

type_synonym Note = "char Note_of"

text \<open>
  The state of the component: one field for each \<^verbatim>\<open>useState\<close>, and the slot \<^verbatim>\<open>'notes'\<close> of
  \<^verbatim>\<open>localStorage\<close> (\<open>None\<close> when \<^verbatim>\<open>getItem\<close> returns \<^verbatim>\<open>null\<close>). The state variables \<^verbatim>\<open>title\<close>
  and \<^verbatim>\<open>content\<close> are \<open>title_buf\<close> and \<open>content_buf\<close>: the note's fields have these names.
\<close>

record app =
  "notes" :: "Note list"
  isEditing :: bool
  currentNote :: "Note option"
  searchQuery :: string
  selectedTag :: "string option"
  title_buf :: string
  content_buf :: string
  tagInput :: string
  currentTags :: "string list"
  localStorage :: "string option"

section \<open>String operations of the host\<close>

text \<open>
  \<^verbatim>\<open>String.prototype.toLowerCase\<close> on the code units U+0000 to U+00FF: the letters A to Z and
  the Latin-1 capitals U+00C0 to U+00DE (the multiplication sign U+00D7 apart) move up by
  32, every other code unit stays.
\<close>

definition lower_char :: "char \<Rightarrow> char" where
  "lower_char c =
     (let k = (of_char c :: nat)
      in if (65 \<le> k \<and> k \<le> 90) \<or> (192 \<le> k \<and> k \<le> 222 \<and> k \<noteq> 215)
         then char_of (k + 32) else c)"

definition toLowerCase :: "string \<Rightarrow> string" where
  "toLowerCase s = map lower_char s"

text \<open>
  \<^verbatim>\<open>String.prototype.trim\<close>: white space and line terminators are removed at both ends; in
  the range of the model these are tab, line feed, vertical tab, form feed, carriage
  return, space and the no-break space U+00A0.
\<close>

definition isWhiteSpace :: "char \<Rightarrow> bool" where
  "isWhiteSpace c \<longleftrightarrow> (of_char c :: nat) \<in> {9, 10, 11, 12, 13, 32, 160}"

definition trim :: "string \<Rightarrow> string" where
  "trim s = rev (dropWhile isWhiteSpace (rev (dropWhile isWhiteSpace s)))"

text \<open>\<^verbatim>\<open>s.includes(q)\<close>: \<open>q\<close> occurs in \<open>s\<close> as a run of consecutive code units.\<close>

fun includes_str :: "'c list \<Rightarrow> 'c list \<Rightarrow> bool" where
  "includes_str [] q = (q = [])"
| "includes_str (c # cs) q = (prefix q (c # cs) \<or> includes_str cs q)"

section \<open>The filtered view\<close>

text \<open>
  The two conjuncts of the callback of \<^verbatim>\<open>notes.filter\<close> in \<^verbatim>\<open>filteredNotes\<close>. \<open>lower\<close> is the
  host's \<^verbatim>\<open>String.prototype.toLowerCase\<close>.
\<close>

definition matchesSearchWith :: "('c list \<Rightarrow> 'c list) \<Rightarrow> 'c list \<Rightarrow> 'c Note_of \<Rightarrow> bool" where
  "matchesSearchWith lower q n \<longleftrightarrow>
     q = [] \<or>
     includes_str (lower (title n)) (lower q) \<or>
     includes_str (lower (content n)) (lower q) \<or>
     list_ex (\<lambda>tag. includes_str (lower tag) (lower q)) (tags n)"

definition matchesTag :: "'c list option \<Rightarrow> 'c Note_of \<Rightarrow> bool" where
  "matchesTag sel n \<longleftrightarrow> (case sel of None \<Rightarrow> True | Some t \<Rightarrow> t \<in> set (tags n))"

text \<open>
  \<^verbatim>\<open>.sort((a, b) => b.updatedAt - a.updatedAt)\<close>: \<^verbatim>\<open>Array.prototype.sort\<close> is stable, and the
  comparator orders by descending \<^verbatim>\<open>updatedAt\<close>, which is the stable sort on the key
  \<open>- updatedAt\<close>.
\<close>

definition filteredNotesWith ::
  "('c list \<Rightarrow> 'c list) \<Rightarrow> 'c list \<Rightarrow> 'c list option \<Rightarrow> 'c Note_of list \<Rightarrow> 'c Note_of list" where
  "filteredNotesWith lower q sel ns =
     sort_key (\<lambda>n. - updatedAt n)
       (filter (\<lambda>n. matchesSearchWith lower q n \<and> matchesTag sel n) ns)"

text \<open>The view of the component, over the code units U+0000 to U+00FF.\<close>

definition matchesSearch :: "string \<Rightarrow> Note \<Rightarrow> bool" where
  "matchesSearch q n \<longleftrightarrow> matchesSearchWith toLowerCase q n"

definition filteredNotes :: "app \<Rightarrow> Note list" where
  "filteredNotes s = filteredNotesWith toLowerCase (searchQuery s) (selectedTag s) (notes s)"










section \<open>The note store\<close>

text \<open>
  The host functions the store calls and the repository does not define: \<^verbatim>\<open>JSON.parse\<close>,
  which returns the parsed value or throws a \<^verbatim>\<open>SyntaxError\<close>, and \<^verbatim>\<open>JSON.stringify\<close>.
  The component passes the parsed value to \<^verbatim>\<open>setNotes\<close> as it is, at the type
  \<^verbatim>\<open>Note[]\<close> of the state, so the parser is taken at that type. Every operation of the
  store takes the host as a parameter.
\<close>

datatype error = SyntaxError

record host =
  JSON_parse :: "string \<Rightarrow> error + Note list"
  JSON_stringify :: "Note list \<Rightarrow> string"

text \<open>
  The second effect, \<^verbatim>\<open>useEffect(() => { if (notes.length > 0) localStorage.setItem(...) },
  [notes])\<close>: the write of the whole collection, skipped when the collection is empty.
\<close>

definition persist :: "host \<Rightarrow> app \<Rightarrow> app" where
  "persist h s =
     (if 0 < length (notes s) then s\<lparr>localStorage := Some (JSON_stringify h (notes s))\<rparr> else s)"

text \<open>
  \<^verbatim>\<open>setNotes(ns)\<close>: every call of the source passes a fresh array, so the component renders
  again and the effect on \<^verbatim>\<open>[notes]\<close> runs on the new collection.
\<close>

definition setNotes :: "host \<Rightarrow> Note list \<Rightarrow> app \<Rightarrow> app" where
  "setNotes h ns s = persist h (s\<lparr>notes := ns\<rparr>)"

text \<open>The initial values of the \<^verbatim>\<open>useState\<close> calls, over a given content of the storage slot.\<close>

definition initial :: "string option \<Rightarrow> app" where
  "initial stored =
     \<lparr>notes = [], isEditing = False, currentNote = None, searchQuery = [], selectedTag = None,
      title_buf = [], content_buf = [], tagInput = [], currentTags = [],
      localStorage = stored\<rparr>"

text \<open>
  The first effect, run once when the component is mounted. \<^verbatim>\<open>if (stored)\<close> is false for
  \<^verbatim>\<open>null\<close> and for the empty string. Nothing catches what \<^verbatim>\<open>JSON.parse\<close> throws: the
  exception leaves the effect, which is the result \<open>Inl\<close>. The second effect runs at the
  mount as well, on the empty collection of the first render, and writes nothing; it runs
  again on the loaded collection, inside \<open>setNotes\<close>.
\<close>

definition load :: "host \<Rightarrow> app \<Rightarrow> error + app" where
  "load h s =
     (case localStorage s of
        None \<Rightarrow> Inr s
      | Some stored \<Rightarrow>
          if stored = [] then Inr s
          else (case JSON_parse h stored of
                  Inl e \<Rightarrow> Inl e
                | Inr parsed \<Rightarrow> Inr (setNotes h parsed s)))"

definition cancelEdit :: "app \<Rightarrow> app" where
  "cancelEdit s =
     s\<lparr>isEditing := False, currentNote := None, title_buf := [], content_buf := [],
       currentTags := [], tagInput := []\<rparr>"

definition startNewNote :: "app \<Rightarrow> app" where
  "startNewNote s =
     s\<lparr>isEditing := True, currentNote := None, title_buf := [], content_buf := [],
       currentTags := [], tagInput := []\<rparr>"

definition editNote :: "Note \<Rightarrow> app \<Rightarrow> app" where
  "editNote n s =
     s\<lparr>isEditing := True, currentNote := Some n, title_buf := title n, content_buf := content n,
       currentTags := tags n, tagInput := []\<rparr>"

text \<open>
  \<^verbatim>\<open>saveNote\<close>. \<open>now\<close> is what \<^verbatim>\<open>Date.now()\<close> returns and \<open>uuid\<close> what \<^verbatim>\<open>crypto.randomUUID()\<close>
  returns. A string is false in a condition exactly when it is empty.
\<close>

definition saveNote :: "host \<Rightarrow> int \<Rightarrow> string \<Rightarrow> app \<Rightarrow> app" where
  "saveNote h now uuid s =
     (if trim (title_buf s) = [] \<and> trim (content_buf s) = [] then s
      else
        cancelEdit
          (case currentNote s of
             Some cur \<Rightarrow>
               setNotes h
                 (map (\<lambda>n. if id_note n = id_note cur
                            then n\<lparr>title := title_buf s, content := content_buf s,
                                   tags := currentTags s, updatedAt := now\<rparr>
                            else n)
                    (notes s)) s
           | None \<Rightarrow>
               setNotes h
                 (\<lparr>id_note = uuid, title = title_buf s, content = content_buf s,
                   tags = currentTags s, createdAt = now, updatedAt = now\<rparr> # notes s) s))"

text \<open>\<^verbatim>\<open>deleteNote\<close>. \<open>confirmed\<close> is the answer of the dialog \<^verbatim>\<open>confirm('Delete this note?')\<close>.\<close>

definition deleteNote :: "host \<Rightarrow> bool \<Rightarrow> string \<Rightarrow> app \<Rightarrow> app" where
  "deleteNote h confirmed i s =
     (if confirmed then setNotes h (filter (\<lambda>n. id_note n \<noteq> i) (notes s)) s else s)"

definition addTag :: "app \<Rightarrow> app" where
  "addTag s =
     (let tag = toLowerCase (trim (tagInput s))
      in if tag \<noteq> [] \<and> tag \<notin> set (currentTags s)
         then s\<lparr>currentTags := currentTags s @ [tag], tagInput := []\<rparr>
         else s)"

definition removeTag :: "string \<Rightarrow> app \<Rightarrow> app" where
  "removeTag tagToRemove s = s\<lparr>currentTags := filter (\<lambda>t. t \<noteq> tagToRemove) (currentTags s)\<rparr>"

section \<open>Runs of user actions\<close>

text \<open>The user deletes the notes with the given ids one after the other, confirming each dialog.\<close>

fun deleteAll :: "host \<Rightarrow> string list \<Rightarrow> app \<Rightarrow> app" where
  "deleteAll h [] s = s"
| "deleteAll h (i # ids) s = deleteAll h ids (deleteNote h True i s)"

text \<open>
  The collection as it was before the deletion that emptied it, when the notes with the
  given ids are removed in order (the collection itself when it never becomes empty).
\<close>

fun lastNonEmpty :: "string list \<Rightarrow> Note list \<Rightarrow> Note list" where
  "lastNonEmpty [] ns = ns"
| "lastNonEmpty (i # ids) ns =
     (if filter (\<lambda>n. id_note n \<noteq> i) ns = [] then ns
      else lastNonEmpty ids (filter (\<lambda>n. id_note n \<noteq> i) ns))"

text \<open>
  The events the rendered component offers, each with the handler the JSX binds to it:
  the buttons \<^verbatim>\<open>+ New\<close>, \<^verbatim>\<open>Back\<close>, \<^verbatim>\<open>Save\<close>, \<^verbatim>\<open>Delete\<close> (with the answer to the dialog and
  the id of the card's note), \<^verbatim>\<open>Add\<close> and the cross of a tag; a click on the \<open>k\<close>-th card of the list, which edits
  \<^verbatim>\<open>filteredNotes[k]\<close>; typing into the four inputs; the tag filter buttons. A run applies
  events in order. The list view and the editor each offer only some of these events;
  a run may take them in any order, which covers every order the views allow.
\<close>

datatype action =
    StartNewNote
  | EditNote nat
  | CancelEdit
  | SaveNote int string
  | DeleteNote bool string
  | SetTitle string
  | SetContent string
  | SetTagInput string
  | AddTag
  | RemoveTag string
  | SetSearchQuery string
  | SelectAllTags
  | SelectTag string

fun step :: "host \<Rightarrow> action \<Rightarrow> app \<Rightarrow> app" where
  "step h StartNewNote s = startNewNote s"
| "step h (EditNote k) s =
     (if k < length (filteredNotes s) then editNote (filteredNotes s ! k) s else s)"
| "step h CancelEdit s = cancelEdit s"
| "step h (SaveNote now uuid) s = saveNote h now uuid s"
| "step h (DeleteNote confirmed i) s = deleteNote h confirmed i s"
| "step h (SetTitle x) s = s\<lparr>title_buf := x\<rparr>"
| "step h (SetContent x) s = s\<lparr>content_buf := x\<rparr>"
| "step h (SetTagInput x) s = s\<lparr>tagInput := x\<rparr>"
| "step h AddTag s = addTag s"
| "step h (RemoveTag t) s = removeTag t s"
| "step h (SetSearchQuery q) s = s\<lparr>searchQuery := q\<rparr>"
| "step h SelectAllTags s = s\<lparr>selectedTag := None\<rparr>"
| "step h (SelectTag t) s =
     s\<lparr>selectedTag := (if selectedTag s = Some t then None else Some t)\<rparr>"

definition run :: "host \<Rightarrow> action list \<Rightarrow> app \<Rightarrow> app" where
  "run h acts s = fold (step h) acts s"





section \<open>A host for the examples\<close>

text \<open>
  A concrete host, at which the theorems below are instantiated. Its \<open>stringifyNotes\<close>
  writes what \<^verbatim>\<open>JSON.stringify\<close> writes for an array of notes made by \<^verbatim>\<open>saveNote\<close>: no white
  space, the keys in the order of the object literal, strings quoted with the escapes of
  \<^verbatim>\<open>JSON.stringify\<close>, timestamps in decimal. Its \<open>parseNotes\<close> reads the texts of this
  form and throws \<^verbatim>\<open>SyntaxError\<close> on a text that is not of this form; the examples use it
  on texts \<open>stringifyNotes\<close> wrote and on a text that is no JSON at all. The theorems about
  the store hold for every host; this one shows that their hypotheses can be met.
\<close>

text \<open>
  The printer. A string is written between double quotes; the quote, the backslash and
  the control characters are escaped, the five short escapes first and \<^verbatim>\<open>\u00XX\<close> for the
  other control characters.
\<close>

definition hexDigit :: "nat \<Rightarrow> char" where
  "hexDigit k = ''0123456789abcdef'' ! (k mod 16)"

definition quoteChar :: "char \<Rightarrow> string" where
  "quoteChar c =
     (let k = (of_char c :: nat) in
      if k = 8 then [CHR 0x5C, CHR ''b'']
      else if k = 9 then [CHR 0x5C, CHR ''t'']
      else if k = 10 then [CHR 0x5C, CHR ''n'']
      else if k = 12 then [CHR 0x5C, CHR ''f'']
      else if k = 13 then [CHR 0x5C, CHR ''r'']
      else if k = 34 then [CHR 0x5C, CHR 0x22]
      else if k = 92 then [CHR 0x5C, CHR 0x5C]
      else if k < 32 then [CHR 0x5C, CHR ''u'', CHR ''0'', CHR ''0'', hexDigit (k div 16), hexDigit k]
      else [c])"

definition quoteString :: "string \<Rightarrow> string" where
  "quoteString s = CHR 0x22 # concat (map quoteChar s) @ [CHR 0x22]"

function digits :: "int \<Rightarrow> string" where
  "digits n = (if n < 10 then [hexDigit (nat n)] else digits (n div 10) @ [hexDigit (nat (n mod 10))])"
  by pat_completeness auto
termination
  by (relation "measure nat") auto

declare digits.simps [simp del]

definition numberToString :: "int \<Rightarrow> string" where
  "numberToString i = (if i < 0 then CHR ''-'' # digits (- i) else digits i)"

fun commas :: "string list \<Rightarrow> string" where
  "commas [] = []"
| "commas [x] = x"
| "commas (x # y # ys) = x @ CHR '','' # commas (y # ys)"

definition stringifyArray :: "string list \<Rightarrow> string" where
  "stringifyArray xs = CHR ''['' # commas xs @ [CHR '']'']"

definition stringifyNote :: "Note \<Rightarrow> string" where
  \<open>stringifyNote n =
     ''{"id":'' @ quoteString (id_note n) @
     '',"title":'' @ quoteString (title n) @
     '',"content":'' @ quoteString (content n) @
     '',"tags":'' @ stringifyArray (map quoteString (tags n)) @
     '',"createdAt":'' @ numberToString (createdAt n) @
     '',"updatedAt":'' @ numberToString (updatedAt n) @ ''}''\<close>

definition stringifyNotes :: "Note list \<Rightarrow> string" where
  "stringifyNotes ns = stringifyArray (map stringifyNote ns)"



text \<open>
  The reader. \<open>readChars\<close> reads a string after its opening quote, up to the closing one,
  and resolves the escapes; every reader returns what it read with the rest of the text.
\<close>

definition hexValue :: "char \<Rightarrow> nat option" where
  "hexValue c =
     (let k = (of_char c :: nat) in
      if 48 \<le> k \<and> k \<le> 57 then Some (k - 48)
      else if 97 \<le> k \<and> k \<le> 102 then Some (k - 87)
      else if 65 \<le> k \<and> k \<le> 70 then Some (k - 55)
      else None)"

definition unescape :: "char \<Rightarrow> char option" where
  "unescape e =
     (if e = CHR 0x22 \<or> e = CHR 0x5C \<or> e = CHR ''/'' then Some e
      else if e = CHR ''b'' then Some (CHR 0x08)
      else if e = CHR ''t'' then Some (CHR 0x09)
      else if e = CHR ''n'' then Some (CHR 0x0A)
      else if e = CHR ''f'' then Some (CHR 0x0C)
      else if e = CHR ''r'' then Some (CHR 0x0D)
      else None)"

fun readChars :: "string \<Rightarrow> (string \<times> string) option" where
  "readChars [] = None"
| "readChars (c # cs) =
     (if c = CHR 0x22 then Some ([], cs)
      else if c = CHR 0x5C then
        (case cs of
           e # a # b # x # y # r \<Rightarrow>
             if e = CHR ''u'' then
               (case (hexValue a, hexValue b, hexValue x, hexValue y) of
                  (Some 0, Some 0, Some h, Some l) \<Rightarrow>
                    map_option (apfst ((#) (char_of (16 * h + l)))) (readChars r)
                | _ \<Rightarrow> None)
             else (case unescape e of
                     None \<Rightarrow> None
                   | Some d \<Rightarrow> map_option (apfst ((#) d)) (readChars (a # b # x # y # r)))
         | e # r \<Rightarrow>
             (case unescape e of
                None \<Rightarrow> None
              | Some d \<Rightarrow> map_option (apfst ((#) d)) (readChars r))
         | [] \<Rightarrow> None)
      else if (of_char c :: nat) < 32 then None
      else map_option (apfst ((#) c)) (readChars cs))"

definition readString :: "string \<Rightarrow> (string \<times> string) option" where
  "readString s = (case s of c # cs \<Rightarrow> if c = CHR 0x22 then readChars cs else None | [] \<Rightarrow> None)"

definition isDigit :: "char \<Rightarrow> bool" where
  "isDigit c \<longleftrightarrow> 48 \<le> (of_char c :: nat) \<and> (of_char c :: nat) \<le> 57"

definition digitsValue :: "string \<Rightarrow> int" where
  "digitsValue ds = foldl (\<lambda>a d. 10 * a + (of_char d - 48)) 0 ds"

definition readNatural :: "string \<Rightarrow> (int \<times> string) option" where
  "readNatural s =
     (let ds = takeWhile isDigit s in
      if ds = [] \<or> (1 < length ds \<and> hd ds = CHR ''0'') then None
      else Some (digitsValue ds, dropWhile isDigit s))"

definition readNumber :: "string \<Rightarrow> (int \<times> string) option" where
  "readNumber s =
     (case s of
        c # cs \<Rightarrow> if c = CHR ''-'' then map_option (apfst uminus) (readNatural cs) else readNatural s
      | [] \<Rightarrow> None)"

definition expect :: "string \<Rightarrow> string \<Rightarrow> string option" where
  "expect lit s = (if prefix lit s then Some (drop (length lit) s) else None)"

text \<open>
  The elements of an array after the opening bracket, separated by commas, up to the
  closing bracket. The test on the lengths holds whenever the element reader consumed
  some text; it makes the recursion terminate for every element reader.
\<close>

function readElements :: "(string \<Rightarrow> ('a \<times> string) option) \<Rightarrow> string \<Rightarrow> ('a list \<times> string) option" where
  "readElements p s =
     (case p s of
        None \<Rightarrow> None
      | Some (x, r) \<Rightarrow>
          (case r of
             [] \<Rightarrow> None
           | c # r' \<Rightarrow>
               if c = CHR '']'' then Some ([x], r')
               else if c = CHR '','' \<and> length r' < length s
                 then map_option (apfst ((#) x)) (readElements p r')
               else None))"
  by pat_completeness auto
termination
  by (relation "measure (\<lambda>(p, s). length s)") auto

declare readElements.simps [simp del]

definition readArray :: "(string \<Rightarrow> ('a \<times> string) option) \<Rightarrow> string \<Rightarrow> ('a list \<times> string) option" where
  "readArray p s =
     (case s of
        c # d # r \<Rightarrow>
          if c = CHR ''['' then (if d = CHR '']'' then Some ([], r) else readElements p (d # r))
          else None
      | _ \<Rightarrow> None)"

definition readNote :: "string \<Rightarrow> (Note \<times> string) option" where
  \<open>readNote s = do {
     r \<leftarrow> expect ''{"id":'' s;
     (i, r) \<leftarrow> readString r;
     r \<leftarrow> expect '',"title":'' r;
     (t, r) \<leftarrow> readString r;
     r \<leftarrow> expect '',"content":'' r;
     (c, r) \<leftarrow> readString r;
     r \<leftarrow> expect '',"tags":'' r;
     (g, r) \<leftarrow> readArray readString r;
     r \<leftarrow> expect '',"createdAt":'' r;
     (ca, r) \<leftarrow> readNumber r;
     r \<leftarrow> expect '',"updatedAt":'' r;
     (ua, r) \<leftarrow> readNumber r;
     r \<leftarrow> expect ''}'' r;
     Some (\<lparr>id_note = i, title = t, content = c, tags = g, createdAt = ca, updatedAt = ua\<rparr>, r)
   }\<close>

definition parseNotes :: "string \<Rightarrow> error + Note list" where
  "parseNotes s = (case readArray readNote s of Some (ns, []) \<Rightarrow> Inr ns | _ \<Rightarrow> Inl SyntaxError)"

text \<open>A number ends where the text ends or goes on with a character that is no digit.\<close>

definition stopsNumber :: "string \<Rightarrow> bool" where
  "stopsNumber r \<longleftrightarrow> (case r of [] \<Rightarrow> True | c # _ \<Rightarrow> \<not> isDigit c)"

definition canonicalJSON :: host where
  "canonicalJSON = \<lparr>JSON_parse = parseNotes, JSON_stringify = stringifyNotes\<rparr>"

section \<open>Example data\<close>

text \<open>The notes A and B of the specification's example, and a state that holds them.\<close>

definition noteA :: Note where
  "noteA = \<lparr>id_note = ''a'', title = ''Work plan'', content = ''first'', tags = [''x''],
            createdAt = 100, updatedAt = 100\<rparr>"

definition noteB :: Note where
  "noteB = \<lparr>id_note = ''b'', title = ''Home'', content = ''second'', tags = [''y''],
            createdAt = 150, updatedAt = 200\<rparr>"

definition stateAB :: app where
  "stateAB = (initial (Some (stringifyNotes [noteA, noteB])))\<lparr>notes := [noteA, noteB]\<rparr>"

definition stateA :: app where
  "stateA = (initial (Some (stringifyNotes [noteA])))\<lparr>notes := [noteA]\<rparr>"




text \<open>The user has opened note A and changed its title and tags, without saving yet.\<close>

definition editingA :: app where
  "editingA = (editNote noteA stateAB)\<lparr>title_buf := ''Work'', currentTags := [''x'', ''z'']\<rparr>"

text \<open>The user has started a new note and typed a title and a tag, without saving yet.\<close>

definition draftC :: app where
  "draftC = (startNewNote stateAB)\<lparr>title_buf := ''Garden'', currentTags := [''z'']\<rparr>"


section \<open>Properties of the filtered view\<close>





lemma of_char_less: "(of_char c :: nat) < 256"
  by (metis of_char_of char_of_char mod_less_divisor zero_less_numeral)











lemma sorted_filteredNotes:
  "sorted_wrt (\<lambda>a b. updatedAt b \<le> updatedAt a) (filteredNotes s)"
proof -
  have "sorted (map (\<lambda>n. - updatedAt n) (filteredNotes s))"
    unfolding filteredNotes_def filteredNotesWith_def by (rule sorted_sort_key)
  then show ?thesis
    by (simp add: sorted_wrt_map)
qed

lemma matches_unfiltered: "matchesSearch [] n \<and> matchesTag None n"
  by (simp add: matchesSearch_def matchesSearchWith_def matchesTag_def)

text \<open>
  C3. The visible set is sorted by descending \<open>updatedAt\<close>, whatever the collection and
  the filter inputs are; with an empty query and no tag filter it holds exactly the
  notes of the collection, each as often as the collection does.
\<close>

theorem filteredNotes_sorted_descending:
  "sorted_wrt (\<lambda>a b. updatedAt b \<le> updatedAt a) (filteredNotes s) \<and>
   mset (filteredNotes (s\<lparr>searchQuery := [], selectedTag := None\<rparr>)) = mset (notes s) \<and>
   sorted_wrt (\<lambda>a b. updatedAt b \<le> updatedAt a)
     (filteredNotes (s\<lparr>searchQuery := [], selectedTag := None\<rparr>))"
  by (simp add: sorted_filteredNotes)
    (simp add: filteredNotes_def filteredNotesWith_def
      matches_unfiltered [unfolded matchesSearch_def])

text \<open>The examples of the specification: the order of A and B, and the query \<open>wor\<close>.\<close>

lemma example_order: "filteredNotes stateAB = [noteB, noteA]"
  by (simp add: filteredNotes_def filteredNotesWith_def stateAB_def initial_def
      matches_unfiltered [unfolded matchesSearch_def] noteA_def noteB_def)

lemma example_query:
  "matchesSearch ''wor'' noteA \<and> \<not> matchesSearch ''wor'' noteB"
  by code_simp

section \<open>The example host reads what it writes\<close>

lemma readChars_plain:
  "32 \<le> (of_char c :: nat) \<Longrightarrow> c \<noteq> CHR 0x22 \<Longrightarrow> c \<noteq> CHR 0x5C \<Longrightarrow>
     readChars (c # r) = map_option (apfst ((#) c)) (readChars r)"
  by simp

lemma readChars_escape:
  "e \<noteq> CHR ''u'' \<Longrightarrow> unescape e = Some d \<Longrightarrow>
     readChars (CHR 0x5C # e # r) = map_option (apfst ((#) d)) (readChars r)"
  by (simp split: list.splits)

lemma hexValue_hexDigit: "k < 16 \<Longrightarrow> hexValue (hexDigit k) = Some k"
proof -
  assume "k < 16"
  then have "k = 0 \<or> k = 1 \<or> k = 2 \<or> k = 3 \<or> k = 4 \<or> k = 5 \<or> k = 6 \<or> k = 7 \<or>
      k = 8 \<or> k = 9 \<or> k = 10 \<or> k = 11 \<or> k = 12 \<or> k = 13 \<or> k = 14 \<or> k = 15"
    by arith
  then show ?thesis
    by (elim disjE) (simp_all add: hexDigit_def hexValue_def)
qed

lemma hexValue_zero: "hexValue CHR ''0'' = Some 0"
  by (simp add: hexValue_def)

lemma readChars_unicode:
  "h < 16 \<Longrightarrow> l < 16 \<Longrightarrow>
     readChars (CHR 0x5C # CHR ''u'' # CHR ''0'' # CHR ''0'' # hexDigit h # hexDigit l # r) =
       map_option (apfst ((#) (char_of (16 * h + l)))) (readChars r)"
  by (simp add: hexValue_hexDigit hexValue_zero)

lemma char_by_code: "(of_char c :: nat) = of_char d \<Longrightarrow> c = d"
  by (rule of_char_eqI)

lemma readChars_quoteChar:
  "readChars (quoteChar c @ r) = map_option (apfst ((#) c)) (readChars r)"
proof -
  let ?k = "of_char c :: nat"
  consider "?k = 8" | "?k = 9" | "?k = 10" | "?k = 12" | "?k = 13" | "?k = 34" | "?k = 92"
    | "?k < 32" "?k \<notin> {8, 9, 10, 12, 13}" | "32 \<le> ?k" "?k \<noteq> 34" "?k \<noteq> 92"
    by force
  then show ?thesis
  proof cases
    case 1
    then have "c = CHR 0x08" by (intro char_by_code) simp
    then show ?thesis
      by (simp add: quoteChar_def readChars_escape unescape_def del: readChars.simps)
  next
    case 2
    then have "c = CHR 0x09" by (intro char_by_code) simp
    then show ?thesis
      by (simp add: quoteChar_def readChars_escape unescape_def del: readChars.simps)
  next
    case 3
    then have "c = CHR 0x0A" by (intro char_by_code) simp
    then show ?thesis
      by (simp add: quoteChar_def readChars_escape unescape_def del: readChars.simps)
  next
    case 4
    then have "c = CHR 0x0C" by (intro char_by_code) simp
    then show ?thesis
      by (simp add: quoteChar_def readChars_escape unescape_def del: readChars.simps)
  next
    case 5
    then have "c = CHR 0x0D" by (intro char_by_code) simp
    then show ?thesis
      by (simp add: quoteChar_def readChars_escape unescape_def del: readChars.simps)
  next
    case 6
    then have "c = CHR 0x22" by (intro char_by_code) simp
    then show ?thesis
      by (simp add: quoteChar_def readChars_escape unescape_def del: readChars.simps)
  next
    case 7
    then have "c = CHR 0x5C" by (intro char_by_code) simp
    then show ?thesis
      by (simp add: quoteChar_def readChars_escape unescape_def del: readChars.simps)
  next
    case 8
    then have "quoteChar c = [CHR 0x5C, CHR ''u'', CHR ''0'', CHR ''0'', hexDigit (?k div 16), hexDigit ?k]"
      by (auto simp: quoteChar_def Let_def)
    moreover have "hexDigit ?k = hexDigit (?k mod 16)"
      by (simp add: hexDigit_def)
    moreover have "char_of (16 * (?k div 16) + ?k mod 16) = c"
      by simp
    ultimately show ?thesis
      using 8 readChars_unicode [of "?k div 16" "?k mod 16" r] by (simp del: readChars.simps)
  next
    case 9
    then have "quoteChar c = [c]" "c \<noteq> CHR 0x22" "c \<noteq> CHR 0x5C"
      by (auto simp: quoteChar_def Let_def)
    with 9 show ?thesis by (simp add: readChars_plain del: readChars.simps)
  qed
qed

lemma readChars_quoted:
  "readChars (concat (map quoteChar s) @ CHR 0x22 # r) = Some (s, r)"
  by (induction s) (simp_all add: readChars_quoteChar del: readChars.simps, simp)

lemma readString_quoteString: "readString (quoteString s @ r) = Some (s, r)"
  by (simp add: readString_def quoteString_def readChars_quoted del: readChars.simps)


lemma of_char_hexDigit: "k < 10 \<Longrightarrow> (of_char (hexDigit k) :: nat) = 48 + k"
proof -
  assume "k < 10"
  then have "k = 0 \<or> k = 1 \<or> k = 2 \<or> k = 3 \<or> k = 4 \<or> k = 5 \<or> k = 6 \<or> k = 7 \<or>
      k = 8 \<or> k = 9"
    by arith
  then show ?thesis
    by (elim disjE) (simp_all add: hexDigit_def)
qed

lemma isDigit_hexDigit: "k < 10 \<Longrightarrow> isDigit (hexDigit k)"
  by (simp add: isDigit_def of_char_hexDigit)

lemma digit_value: "k < 10 \<Longrightarrow> (of_char (hexDigit k) :: int) - 48 = int k"
proof -
  assume k: "k < 10"
  have "(of_char (hexDigit k) :: int) = int (of_char (hexDigit k))"
    by (simp add: of_char_def)
  then show ?thesis
    using of_char_hexDigit [OF k] by simp
qed

lemma digits_small: "n < 10 \<Longrightarrow> digits n = [hexDigit (nat n)]"
  by (simp add: digits.simps)

lemma digits_large:
  "\<not> n < 10 \<Longrightarrow> digits n = digits (n div 10) @ [hexDigit (nat (n mod 10))]"
  by (subst digits.simps) simp

lemma digits_not_Nil: "digits n \<noteq> []"
  by (cases "n < 10") (simp_all add: digits_small digits_large)

lemma digits_isDigit: "0 \<le> n \<Longrightarrow> list_all isDigit (digits n)"
proof (induction n rule: digits.induct)
  case (1 n)
  show ?case
  proof (cases "n < 10")
    case True
    with "1.prems" show ?thesis
      by (simp add: digits_small isDigit_hexDigit)
  next
    case False
    with "1.prems" have "list_all isDigit (digits (n div 10))"
      by (intro "1.IH") simp_all
    moreover have "isDigit (hexDigit (nat (n mod 10)))"
      by (intro isDigit_hexDigit) simp
    ultimately show ?thesis
      using False by (simp add: digits_large)
  qed
qed

lemma digitsValue_snoc: "digitsValue (ds @ [d]) = 10 * digitsValue ds + (of_char d - 48)"
  by (simp add: digitsValue_def)

lemma digitsValue_digits: "0 \<le> n \<Longrightarrow> digitsValue (digits n) = n"
proof (induction n rule: digits.induct)
  case (1 n)
  show ?case
  proof (cases "n < 10")
    case True
    with "1.prems" show ?thesis
      by (simp add: digits_small digitsValue_def digit_value)
  next
    case False
    with "1.prems" have "digitsValue (digits (n div 10)) = n div 10"
      by (intro "1.IH") simp_all
    moreover have "(of_char (hexDigit (nat (n mod 10))) :: int) - 48 = n mod 10"
      by (subst digit_value) simp_all
    ultimately show ?thesis
      using False by (simp add: digits_large digitsValue_snoc)
  qed
qed

lemma hd_digits: "0 < n \<Longrightarrow> hd (digits n) \<noteq> CHR ''0''"
proof (induction n rule: digits.induct)
  case (1 n)
  show ?case
  proof (cases "n < 10")
    case True
    with "1.prems" have "(of_char (hexDigit (nat n)) :: nat) = 48 + nat n" "0 < nat n"
      by (simp_all add: of_char_hexDigit)
    then have "hexDigit (nat n) \<noteq> CHR ''0''"
      by auto
    with True show ?thesis by (simp add: digits_small)
  next
    case False
    with "1.prems" have "hd (digits (n div 10)) \<noteq> CHR ''0''"
      by (intro "1.IH") simp_all
    with False show ?thesis
      by (simp add: digits_large digits_not_Nil)
  qed
qed

lemma length_digits: "1 < length (digits n) \<Longrightarrow> 10 \<le> n"
  by (cases "n < 10") (simp_all add: digits_small)

lemma readNatural_digits:
  assumes "0 \<le> n" and "stopsNumber r"
  shows "readNatural (digits n @ r) = Some (n, r)"
proof -
  have all: "\<forall>c \<in> set (digits n). isDigit c"
    using digits_isDigit [OF assms(1)] by (simp add: list_all_iff)
  have r: "takeWhile isDigit r = []" "dropWhile isDigit r = r"
    using assms(2) by (cases r; simp add: stopsNumber_def)+
  have t: "takeWhile isDigit (digits n @ r) = digits n"
    using all r by (simp add: takeWhile_append2)
  have d: "dropWhile isDigit (digits n @ r) = r"
    using all r by (simp add: dropWhile_append2)
  have "\<not> (1 < length (digits n) \<and> hd (digits n) = CHR ''0'')"
    using length_digits [of n] hd_digits [of n] by auto
  then show ?thesis
    unfolding readNatural_def t d using assms(1)
    by (simp add: Let_def digits_not_Nil digitsValue_digits)
qed

lemma readNumber_numberToString:
  assumes "stopsNumber r"
  shows "readNumber (numberToString i @ r) = Some (i, r)"
proof (cases "i < 0")
  case True
  then show ?thesis
    using readNatural_digits [of "- i" r] assms
    by (simp add: readNumber_def numberToString_def)
next
  case False
  obtain c cs where split: "digits i = c # cs"
    using digits_not_Nil [of i] by (cases "digits i") auto
  with digits_isDigit [of i] False have "isDigit c" by simp
  then have "c \<noteq> CHR ''-''"
    by (auto simp: isDigit_def)
  then show ?thesis
    using readNatural_digits [of i r] assms False split
    by (simp add: readNumber_def numberToString_def)
qed


lemma readElements_commas:
  assumes "\<And>x r. x \<in> set xs \<Longrightarrow> p (pr x @ r) = Some (x, r)" and "xs \<noteq> []"
  shows "readElements p (commas (map pr xs) @ CHR '']'' # r) = Some (xs, r)"
  using assms
proof (induction xs)
  case Nil
  then show ?case by simp
next
  case (Cons x xs)
  show ?case
  proof (cases xs)
    case Nil
    have "p (pr x @ CHR '']'' # r) = Some (x, CHR '']'' # r)"
      by (rule Cons.prems(1)) simp
    with Nil show ?thesis
      by (subst readElements.simps) simp
  next
    case (Cons y ys)
    let ?rest = "commas (map pr xs) @ CHR '']'' # r"
    have "p (pr x @ CHR '','' # ?rest) = Some (x, CHR '','' # ?rest)"
      by (rule Cons.prems(1)) simp
    moreover have "readElements p ?rest = Some (xs, r)"
      using Cons by (intro Cons.IH Cons.prems(1)) simp_all
    ultimately show ?thesis
      using Cons by (subst readElements.simps) simp
  qed
qed

lemma readArray_stringifyArray:
  assumes "\<And>x r. x \<in> set xs \<Longrightarrow> p (pr x @ r) = Some (x, r)"
    and "\<And>x. x \<in> set xs \<Longrightarrow> pr x \<noteq> [] \<and> hd (pr x) \<noteq> CHR '']''"
  shows "readArray p (stringifyArray (map pr xs) @ r) = Some (xs, r)"
proof (cases xs)
  case Nil
  then show ?thesis
    by (simp add: readArray_def stringifyArray_def)
next
  case (Cons x ys)
  with assms(2) [of x] obtain c cs where first: "pr x = c # cs" and c: "c \<noteq> CHR '']''"
    by (cases "pr x") auto
  obtain more where m: "commas (map pr xs) @ CHR '']'' # r = c # more"
    using Cons first by (cases ys) simp_all
  have "readElements p (c # more) = Some (xs, r)"
    unfolding m [symmetric] using assms(1) Cons by (intro readElements_commas) simp_all
  with c m show ?thesis
    by (simp add: readArray_def stringifyArray_def)
qed

lemma expect_literal: "expect lit (lit @ r) = Some r"
  by (simp add: expect_def)

lemma stopsNumber_simps: "stopsNumber (CHR '','' # r)" "stopsNumber (CHR ''}'' # r)"
  by (simp_all add: stopsNumber_def isDigit_def)

lemma readStrings_round_trip:
  "readArray readString (stringifyArray (map quoteString g) @ r) = Some (g, r)"
proof (rule readArray_stringifyArray)
  show "\<And>x r. readString (quoteString x @ r) = Some (x, r)"
    by (rule readString_quoteString)
  show "\<And>x. quoteString x \<noteq> [] \<and> hd (quoteString x) \<noteq> CHR '']''"
    by (simp add: quoteString_def)
qed

lemma readNote_stringifyNote: "readNote (stringifyNote n @ r) = Some (n, r)"
proof -
  show ?thesis
    unfolding readNote_def stringifyNote_def
    by (simp add: expect_def readString_quoteString readStrings_round_trip
        readNumber_numberToString stopsNumber_simps)
qed

lemma parseNotes_stringifyNotes: "parseNotes (stringifyNotes ns) = Inr ns"
proof -
  have "readArray readNote (stringifyArray (map stringifyNote ns) @ []) = Some (ns, [])"
  proof (rule readArray_stringifyArray)
    show "\<And>x r. readNote (stringifyNote x @ r) = Some (x, r)"
      by (rule readNote_stringifyNote)
    show "\<And>x. stringifyNote x \<noteq> [] \<and> hd (stringifyNote x) \<noteq> CHR '']''"
      by (simp add: stringifyNote_def)
  qed
  then show ?thesis
    by (simp add: parseNotes_def stringifyNotes_def)
qed

lemma canonicalJSON_simps:
  "JSON_parse canonicalJSON = parseNotes" "JSON_stringify canonicalJSON = stringifyNotes"
  by (simp_all add: canonicalJSON_def)

lemma stringifyNotes_not_Nil: "stringifyNotes ns \<noteq> []"
  by (simp add: stringifyNotes_def stringifyArray_def)

text \<open>
  The round trip of the specification, for the example host: a collection that is
  serialized and deserialized comes back field for field, and its text is not empty.
\<close>

lemma canonicalJSON_round_trip:
  "JSON_parse canonicalJSON (JSON_stringify canonicalJSON ns) = Inr ns \<and>
   JSON_stringify canonicalJSON ns \<noteq> []"
  by (simp add: canonicalJSON_simps parseNotes_stringifyNotes stringifyNotes_not_Nil)

lemma parse_not_json: "parseNotes ''not json'' = Inl SyntaxError"
  by code_simp

section \<open>Properties of the store\<close>

lemma notes_cancelEdit: "notes (cancelEdit s) = notes s"
  by (simp add: cancelEdit_def)

lemma localStorage_cancelEdit: "localStorage (cancelEdit s) = localStorage s"
  by (simp add: cancelEdit_def)

lemma notes_setNotes: "notes (setNotes h ns s) = ns"
  by (simp add: setNotes_def persist_def)

lemma localStorage_setNotes:
  "localStorage (setNotes h ns s) = (if ns = [] then localStorage s else Some (JSON_stringify h ns))"
  by (simp add: setNotes_def persist_def)

lemma notes_initial: "notes (initial stored) = []"
  by (simp add: initial_def)

lemma localStorage_initial: "localStorage (initial stored) = stored"
  by (simp add: initial_def)

lemma trim_Nil: "trim [] = []"
  by (simp add: trim_def)

lemma trim_examples:
  "trim ''Work'' = ''Work''" "trim ''Garden'' = ''Garden''" "trim ''first'' = ''first''"
  by (simp_all add: trim_def isWhiteSpace_def)

subsection \<open>Loading\<close>

text \<open>
  C1, as the code has it. When the component is mounted on a storage slot that is absent
  or holds the empty string, the load effect leaves the empty collection and raises
  nothing; on a non-empty text that \<^verbatim>\<open>JSON.parse\<close> accepts, the collection becomes the parsed
  value; on a non-empty text that \<^verbatim>\<open>JSON.parse\<close> rejects, the exception leaves the effect:
  the code has no handler that would fall back to the empty collection.
\<close>

theorem load_outcomes:
  "(stored = None \<or> stored = Some [] \<longrightarrow>
      load h (initial stored) = Inr (initial stored) \<and> notes (initial stored) = []) \<and>
   (slot \<noteq> [] \<and> JSON_parse h slot = Inr parsed \<longrightarrow>
      (\<exists>s'. load h (initial (Some slot)) = Inr s' \<and> notes s' = parsed)) \<and>
   (slot \<noteq> [] \<and> JSON_parse h slot = Inl e \<longrightarrow> load h (initial (Some slot)) = Inl e)"
  by (auto simp: load_def localStorage_initial notes_initial notes_setNotes)

theorem load_outcomes_witness:
  "load canonicalJSON (initial None) = Inr (initial None) \<and> notes (initial None) = [] \<and>
   stringifyNotes [noteA, noteB] \<noteq> [] \<and>
   JSON_parse canonicalJSON (stringifyNotes [noteA, noteB]) = Inr [noteA, noteB] \<and>
   (\<exists>s'. load canonicalJSON (initial (Some (stringifyNotes [noteA, noteB]))) = Inr s' \<and>
      notes s' = [noteA, noteB]) \<and>
   ''not json'' \<noteq> [] \<and> JSON_parse canonicalJSON ''not json'' = Inl SyntaxError \<and>
   load canonicalJSON (initial (Some ''not json'')) = Inl SyntaxError"
  using load_outcomes [of None canonicalJSON "stringifyNotes [noteA, noteB]" "[noteA, noteB]" SyntaxError]
    load_outcomes [of None canonicalJSON "''not json''" "[]" SyntaxError]
  by (simp add: canonicalJSON_simps parse_not_json parseNotes_stringifyNotes stringifyNotes_not_Nil)

text \<open>
  C1 as the specification states it fails: the slot holds the text \<open>not json\<close>, which
  \<^verbatim>\<open>JSON.parse\<close> rejects, and the load effect ends in the \<^verbatim>\<open>SyntaxError\<close> instead of
  returning a state with the empty collection.
\<close>

theorem load_unparseable_throws:
  "load canonicalJSON (initial (Some ''not json'')) = Inl SyntaxError \<and>
   load canonicalJSON (initial (Some ''not json'')) \<noteq> Inr (initial (Some ''not json''))"
  by (simp add: load_def localStorage_initial canonicalJSON_simps parse_not_json)

subsection \<open>Saving\<close>

text \<open>
  C4. Saving an edit buffer whose title and content are both empty changes nothing: the
  state after \<^verbatim>\<open>saveNote\<close> is the state before, so the collection is unchanged and
  nothing is written to the storage slot.
\<close>

theorem saveNote_empty_buffer:
  assumes "title_buf s = []" and "content_buf s = []"
  shows "saveNote h now uuid s = s \<and>
    notes (saveNote h now uuid s) = notes s \<and>
    localStorage (saveNote h now uuid s) = localStorage s"
  using assms by (simp add: saveNote_def trim_Nil)

theorem saveNote_empty_buffer_witness:
  "title_buf (startNewNote stateAB) = [] \<and> content_buf (startNewNote stateAB) = [] \<and>
   saveNote canonicalJSON 300 ''c'' (startNewNote stateAB) = startNewNote stateAB \<and>
   notes (saveNote canonicalJSON 300 ''c'' (startNewNote stateAB)) = [noteA, noteB] \<and>
   localStorage (saveNote canonicalJSON 300 ''c'' (startNewNote stateAB)) =
     Some (stringifyNotes [noteA, noteB])"
  using saveNote_empty_buffer [of "startNewNote stateAB" canonicalJSON 300 "''c''"]
  by (simp add: startNewNote_def stateAB_def initial_def)

lemma saveNote_blank_buffer:
  "trim (title_buf s) = [] \<Longrightarrow> trim (content_buf s) = [] \<Longrightarrow> saveNote h now uuid s = s"
  by (simp add: saveNote_def)

lemma notes_saveNote_update:
  assumes "currentNote s = Some cur" and "\<not> (trim (title_buf s) = [] \<and> trim (content_buf s) = [])"
  shows "notes (saveNote h now uuid s) =
     map (\<lambda>n. if id_note n = id_note cur
                then n\<lparr>title := title_buf s, content := content_buf s,
                       tags := currentTags s, updatedAt := now\<rparr>
                else n) (notes s)"
  using assms by (auto simp add: saveNote_def notes_cancelEdit notes_setNotes)


lemma localStorage_saveNote:
  assumes "\<not> (trim (title_buf s) = [] \<and> trim (content_buf s) = [])"
  shows "localStorage (saveNote h now uuid s) =
     (if notes (saveNote h now uuid s) = [] then localStorage s
      else Some (JSON_stringify h (notes (saveNote h now uuid s))))"
  using assms
  by (auto simp add: saveNote_def localStorage_cancelEdit notes_cancelEdit notes_setNotes
      localStorage_setNotes split: option.splits)

lemma notes_deleteNote:
  "notes (deleteNote h True i s) = filter (\<lambda>n. id_note n \<noteq> i) (notes s)"
  by (simp add: deleteNote_def notes_setNotes)

lemma localStorage_deleteNote:
  "localStorage (deleteNote h True i s) =
     (if notes (deleteNote h True i s) = [] then localStorage s
      else Some (JSON_stringify h (notes (deleteNote h True i s))))"
  by (simp add: deleteNote_def notes_setNotes localStorage_setNotes)

lemma deleteNote_declined: "deleteNote h False i s = s"
  by (simp add: deleteNote_def)


text \<open>
  C5. After a mutation of the collection (\<^verbatim>\<open>saveNote\<close> with a title or content that is not
  blank, which adds or updates a note, and a confirmed \<^verbatim>\<open>deleteNote\<close>), the storage slot
  holds the serialization of the whole new collection when that is not empty; when it is
  empty the write is skipped and the slot keeps what it held.
\<close>

theorem mutation_then_persist:
  "(\<not> (trim (title_buf s) = [] \<and> trim (content_buf s) = []) \<longrightarrow>
      localStorage (saveNote h now uuid s) =
        (if notes (saveNote h now uuid s) = [] then localStorage s
         else Some (JSON_stringify h (notes (saveNote h now uuid s))))) \<and>
   localStorage (deleteNote h True i s) =
     (if notes (deleteNote h True i s) = [] then localStorage s
      else Some (JSON_stringify h (notes (deleteNote h True i s))))"
  using localStorage_saveNote [of s h now uuid] localStorage_deleteNote [of h i s] by blast

theorem mutation_then_persist_witness:
  "\<not> (trim (title_buf draftC) = [] \<and> trim (content_buf draftC) = []) \<and>
   localStorage (saveNote canonicalJSON 300 ''c'' draftC) =
     Some (stringifyNotes (notes (saveNote canonicalJSON 300 ''c'' draftC))) \<and>
   notes (deleteNote canonicalJSON True ''a'' stateA) = [] \<and>
   localStorage (deleteNote canonicalJSON True ''a'' stateA) = localStorage stateA \<and>
   localStorage (deleteNote canonicalJSON True ''a'' stateAB) = Some (stringifyNotes [noteB])"
  using mutation_then_persist [of draftC canonicalJSON 300 "''c''" "''a''"]
    mutation_then_persist [of stateA canonicalJSON 300 "''c''" "''a''"]
    mutation_then_persist [of stateAB canonicalJSON 300 "''c''" "''a''"]
  by (simp add: draftC_def startNewNote_def stateAB_def stateA_def initial_def noteA_def noteB_def
      trim_examples canonicalJSON_def saveNote_def setNotes_def persist_def cancelEdit_def
      deleteNote_def)


text \<open>
  C6. Saving while a note is being edited, with a title or content that is not blank:
  the collection keeps its length and order; every note with the id of the edited note
  gets the buffer's title, content and tags and \<open>updatedAt = now\<close>, and keeps its id and
  \<open>createdAt\<close>; every other note is unchanged; when no note has that id, the collection is
  unchanged.
\<close>

theorem saveNote_update:
  assumes "currentNote s = Some cur"
    and "\<not> (trim (title_buf s) = [] \<and> trim (content_buf s) = [])"
  shows "length (notes (saveNote h now uuid s)) = length (notes s) \<and>
    (\<forall>k < length (notes s).
       notes (saveNote h now uuid s) ! k =
         (if id_note (notes s ! k) = id_note cur
          then (notes s ! k)\<lparr>title := title_buf s, content := content_buf s,
                              tags := currentTags s, updatedAt := now\<rparr>
          else notes s ! k) \<and>
       id_note (notes (saveNote h now uuid s) ! k) = id_note (notes s ! k) \<and>
       createdAt (notes (saveNote h now uuid s) ! k) = createdAt (notes s ! k)) \<and>
    (id_note cur \<notin> id_note ` set (notes s) \<longrightarrow> notes (saveNote h now uuid s) = notes s)"
proof -
  let ?f = "\<lambda>n. if id_note n = id_note cur
                then n\<lparr>title := title_buf s, content := content_buf s,
                       tags := currentTags s, updatedAt := now\<rparr>
                else n"
  have eq: "notes (saveNote h now uuid s) = map ?f (notes s)"
    using assms by (rule notes_saveNote_update)
  have "map ?f (notes s) = notes s" if absent: "id_note cur \<notin> id_note ` set (notes s)"
  proof (rule map_idI)
    fix n assume "n \<in> set (notes s)"
    with absent have "id_note n \<noteq> id_note cur" by (metis imageI)
    then show "?f n = n" by simp
  qed
  then show ?thesis
    unfolding eq by simp
qed


theorem saveNote_update_witness:
  "currentNote editingA = Some noteA \<and>
   \<not> (trim (title_buf editingA) = [] \<and> trim (content_buf editingA) = []) \<and>
   notes editingA = [noteA, noteB] \<and>
   notes (saveNote canonicalJSON 300 ''u'' editingA) =
     [\<lparr>id_note = ''a'', title = ''Work'', content = ''first'', tags = [''x'', ''z''],
       createdAt = 100, updatedAt = 300\<rparr>, noteB]"
  using saveNote_update [of editingA noteA canonicalJSON 300 "''u''"]
  by (simp add: editingA_def editNote_def stateAB_def initial_def noteA_def noteB_def
      trim_examples saveNote_def setNotes_def persist_def cancelEdit_def)




subsection \<open>Deleting\<close>

lemma filter_drops_one:
  assumes "distinct (map f xs)" and "i \<in> f ` set xs"
  shows "\<exists>before n after. xs = before @ n # after \<and> f n = i \<and>
           filter (\<lambda>n. f n \<noteq> i) xs = before @ after"
proof -
  from assms(2) obtain n where "n \<in> set xs" and n: "f n = i" by auto
  then obtain before after where xs: "xs = before @ n # after"
    by (auto dest: split_list)
  with assms(1) n have "\<forall>m \<in> set before \<union> set after. f m \<noteq> i"
    by (auto simp: image_iff)
  then have "filter (\<lambda>n. f n \<noteq> i) before = before" "filter (\<lambda>n. f n \<noteq> i) after = after"
    by (auto simp: filter_id_conv)
  with xs n have "filter (\<lambda>n. f n \<noteq> i) xs = before @ after" by simp
  with xs n show ?thesis by blast
qed

lemma filter_absent:
  assumes "i \<notin> f ` set xs"
  shows "filter (\<lambda>n. f n \<noteq> i) xs = xs"
  using assms by (auto simp: filter_id_conv)

text \<open>
  C8. A confirmed \<^verbatim>\<open>deleteNote\<close> with an id that no note has leaves the collection as it is;
  with the id of a note (ids being unique) it removes that one note and keeps the others
  in their order; in every case what remains are the notes with another id, in order.
\<close>

theorem deleteNote_removes:
  "(i \<notin> id_note ` set (notes s) \<longrightarrow>
      notes (deleteNote h True i s) = notes s \<and>
      length (notes (deleteNote h True i s)) = length (notes s)) \<and>
   (i \<in> id_note ` set (notes s) \<and> distinct (map id_note (notes s)) \<longrightarrow>
      (\<exists>before n after. notes s = before @ n # after \<and> id_note n = i \<and>
         notes (deleteNote h True i s) = before @ after)) \<and>
   notes (deleteNote h True i s) = filter (\<lambda>n. id_note n \<noteq> i) (notes s)"
  using filter_drops_one [of id_note "notes s" i] filter_absent [of i id_note "notes s"]
  by (simp add: notes_deleteNote)

theorem deleteNote_removes_witness:
  "''c'' \<notin> id_note ` set (notes stateAB) \<and>
   notes (deleteNote canonicalJSON True ''c'' stateAB) = [noteA, noteB] \<and>
   ''a'' \<in> id_note ` set (notes stateAB) \<and> distinct (map id_note (notes stateAB)) \<and>
   notes (deleteNote canonicalJSON True ''a'' stateAB) = [noteB]"
  using deleteNote_removes [of "''c''" stateAB canonicalJSON]
    deleteNote_removes [of "''a''" stateAB canonicalJSON]
  by (simp add: stateAB_def initial_def noteA_def noteB_def)

subsection \<open>Tags of the edit buffer\<close>






















lemma deleteAll_run: "deleteAll h ids s = run h (map (DeleteNote True) ids) s"
  unfolding run_def by (induction ids arbitrary: s) simp_all

subsection \<open>Deleting the last note\<close>

lemma deleteAll_empty:
  "notes s = [] \<Longrightarrow>
     notes (deleteAll h ids s) = [] \<and> localStorage (deleteAll h ids s) = localStorage s"
proof (induction ids arbitrary: s)
  case Nil
  then show ?case by simp
next
  case (Cons i ids)
  have "notes (deleteNote h True i s) = []"
    using Cons.prems by (simp add: notes_deleteNote)
  moreover have "localStorage (deleteNote h True i s) = localStorage s"
    using Cons.prems by (simp add: deleteNote_def localStorage_setNotes)
  ultimately show ?case
    using Cons.IH [of "deleteNote h True i s"] by simp
qed

lemma lastNonEmpty_not_Nil: "ns \<noteq> [] \<Longrightarrow> lastNonEmpty ids ns \<noteq> []"
  by (induction ids arbitrary: ns) auto

lemma set_lastNonEmpty: "set (lastNonEmpty ids ns) \<subseteq> set ns"
proof (induction ids arbitrary: ns)
  case Nil
  then show ?case by simp
next
  case (Cons i ids)
  have "set (lastNonEmpty ids (filter (\<lambda>n. id_note n \<noteq> i) ns)) \<subseteq> set ns"
    using Cons.IH [of "filter (\<lambda>n. id_note n \<noteq> i) ns"] by auto
  then show ?case by simp
qed

lemma deleteAll_storage:
  assumes "notes s \<noteq> []" and "localStorage s = Some (JSON_stringify h (notes s))"
    and "notes (deleteAll h ids s) = []"
  shows "localStorage (deleteAll h ids s) = Some (JSON_stringify h (lastNonEmpty ids (notes s)))"
  using assms
proof (induction ids arbitrary: s)
  case Nil
  then show ?case by simp
next
  case (Cons i ids)
  let ?s1 = "deleteNote h True i s"
  have n1: "notes ?s1 = filter (\<lambda>n. id_note n \<noteq> i) (notes s)"
    by (rule notes_deleteNote)
  show ?case
  proof (cases "filter (\<lambda>n. id_note n \<noteq> i) (notes s) = []")
    case True
    with n1 have "notes ?s1 = []" by simp
    then have "localStorage (deleteAll h ids ?s1) = localStorage ?s1"
      by (simp add: deleteAll_empty)
    also have "\<dots> = localStorage s"
      using True by (simp add: deleteNote_def localStorage_setNotes)
    finally show ?thesis
      using True Cons.prems(2) by simp
  next
    case False
    with n1 have "notes ?s1 \<noteq> []" by simp
    moreover have "localStorage ?s1 = Some (JSON_stringify h (notes ?s1))"
      using False by (simp add: deleteNote_def localStorage_setNotes notes_setNotes)
    moreover have "notes (deleteAll h ids ?s1) = []"
      using Cons.prems(3) by simp
    ultimately have "localStorage (deleteAll h ids ?s1) =
        Some (JSON_stringify h (lastNonEmpty ids (notes ?s1)))"
      by (rule Cons.IH)
    then show ?thesis
      using False n1 by simp
  qed
qed

text \<open>
  C10. A non-empty collection is in the storage slot and the user deletes notes until
  the collection is empty. The deletion that empties the collection writes nothing, so
  the slot still holds the serialization of the last non-empty collection; mounted again
  on this slot, the component loads these notes, which the user had deleted, instead of
  the empty collection (for a host that reads back what it wrote).
\<close>

theorem deleted_notes_reappear:
  assumes "notes s \<noteq> []" and "localStorage s = Some (JSON_stringify h (notes s))"
    and "notes (deleteAll h ids s) = []"
    and "JSON_stringify h (lastNonEmpty ids (notes s)) \<noteq> []"
    and "JSON_parse h (JSON_stringify h (lastNonEmpty ids (notes s))) =
           Inr (lastNonEmpty ids (notes s))"
  shows "localStorage (deleteAll h ids s) =
           Some (JSON_stringify h (lastNonEmpty ids (notes s))) \<and>
         lastNonEmpty ids (notes s) \<noteq> [] \<and>
         set (lastNonEmpty ids (notes s)) \<subseteq> set (notes s) \<and>
         (\<exists>s'. load h (initial (localStorage (deleteAll h ids s))) = Inr s' \<and>
            notes s' = lastNonEmpty ids (notes s) \<and> notes s' \<noteq> [])"
proof -
  let ?kept = "lastNonEmpty ids (notes s)"
  have st: "localStorage (deleteAll h ids s) = Some (JSON_stringify h ?kept)"
    using assms(1-3) by (rule deleteAll_storage)
  have ne: "?kept \<noteq> []"
    using assms(1) by (rule lastNonEmpty_not_Nil)
  have "load h (initial (Some (JSON_stringify h ?kept))) =
      Inr (setNotes h ?kept (initial (Some (JSON_stringify h ?kept))))"
    using assms(4,5) by (simp add: load_def localStorage_initial)
  with st ne show ?thesis
    by (simp add: set_lastNonEmpty notes_setNotes)
qed

text \<open>The same for the example host, whose round trip is proved above.\<close>

lemma reload_after_deleteAll_canonicalJSON:
  assumes "notes s \<noteq> []" and "localStorage s = Some (stringifyNotes (notes s))"
    and "notes (deleteAll canonicalJSON ids s) = []"
  shows "\<exists>s'. load canonicalJSON (initial (localStorage (deleteAll canonicalJSON ids s))) = Inr s' \<and>
           notes s' = lastNonEmpty ids (notes s) \<and> notes s' \<noteq> []"
proof -
  let ?kept = "lastNonEmpty ids (notes s)"
  have "localStorage (deleteAll canonicalJSON ids s) = Some (stringifyNotes ?kept)"
    using deleteAll_storage [of s canonicalJSON ids] assms by (simp add: canonicalJSON_simps)
  moreover have "?kept \<noteq> []"
    using assms(1) by (rule lastNonEmpty_not_Nil)
  ultimately show ?thesis
    by (simp add: load_def localStorage_initial canonicalJSON_simps stringifyNotes_not_Nil
        parseNotes_stringifyNotes notes_setNotes)
qed

theorem deleted_notes_reappear_witness:
  "notes stateAB \<noteq> [] \<and>
   localStorage stateAB = Some (JSON_stringify canonicalJSON (notes stateAB)) \<and>
   notes (deleteAll canonicalJSON [''a'', ''b''] stateAB) = [] \<and>
   lastNonEmpty [''a'', ''b''] (notes stateAB) = [noteB] \<and>
   JSON_stringify canonicalJSON [noteB] \<noteq> [] \<and>
   JSON_parse canonicalJSON (JSON_stringify canonicalJSON [noteB]) = Inr [noteB] \<and>
   localStorage (deleteAll canonicalJSON [''a'', ''b''] stateAB) =
     Some (JSON_stringify canonicalJSON [noteB]) \<and>
   (\<exists>s'. load canonicalJSON (initial (localStorage (deleteAll canonicalJSON [''a'', ''b''] stateAB)))
           = Inr s' \<and> notes s' = [noteB] \<and> notes s' \<noteq> [])"
proof -
  have h1: "notes stateAB \<noteq> []"
    by (simp add: stateAB_def)
  have h2: "localStorage stateAB = Some (JSON_stringify canonicalJSON (notes stateAB))"
    by (simp add: stateAB_def initial_def canonicalJSON_simps)
  have h3: "notes (deleteAll canonicalJSON [''a'', ''b''] stateAB) = []"
    by (simp add: notes_deleteNote stateAB_def noteA_def noteB_def)
  have k: "lastNonEmpty [''a'', ''b''] (notes stateAB) = [noteB]"
    by (simp add: stateAB_def noteA_def noteB_def)
  have h4: "JSON_stringify canonicalJSON [noteB] \<noteq> []"
    by (simp add: canonicalJSON_simps stringifyNotes_not_Nil)
  have h5: "JSON_parse canonicalJSON (JSON_stringify canonicalJSON [noteB]) = Inr [noteB]"
    by (simp add: canonicalJSON_simps parseNotes_stringifyNotes)
  from deleted_notes_reappear [of stateAB canonicalJSON "[''a'', ''b'']", unfolded k, OF h1 h2 h3 h4 h5]
    h1 h2 h3 k h4 h5
  show ?thesis by blast
qed

end
